theory Spec2Isabelle
  imports Main "HOL-Library.Sublist"
begin

section \<open>Data model\<close>

text \<open>
  The library is TypeScript; its generic parameters are erased when it runs, and the
  combinators rely on the run-time behaviour of values (\<^verbatim>\<open>value !== undefined\<close>,
  \<^verbatim>\<open>value || null\<close>). Values are therefore modelled by one type of run-time values.
  Numbers are restricted to integers; a tuple is an array, as in the source. A string is
  a list of characters, one for each code unit of the source's string.
\<close>

datatype jsval =
    JUndefined
  | JNull
  | JBool bool
  | JNum int
  | JStr string
  | JArr "jsval list"

text \<open>Truthiness of a value, as used by the operator \<^verbatim>\<open>||\<close>.\<close>

fun truthy :: "jsval \<Rightarrow> bool" where
  "truthy JUndefined = False"
| "truthy JNull = False"
| "truthy (JBool b) = b"
| "truthy (JNum n) = (n \<noteq> 0)"
| "truthy (JStr s) = (s \<noteq> [])"
| "truthy (JArr vs) = True"

text \<open>\<^verbatim>\<open>enum Result { Ok, Error }\<close>\<close>

datatype Result = Ok | Error

text \<open>
  \<^verbatim>\<open>interface ParseResult<T> { state; remainder; value?; error? }\<close>.
  A field that is left out of an object literal reads as \<^verbatim>\<open>undefined\<close>: the
  field \<open>val\<close> (the source's \<^verbatim>\<open>value\<close>) is then \<open>JUndefined\<close>, the field
  \<open>error\<close> is \<open>None\<close>.
\<close>

record ParseResult =
  state :: Result
  remainder :: string
  val :: jsval
  error :: "string option"

text \<open>
  The only state outside a call that the library touches is the console, written by
  \<^verbatim>\<open>Inspect\<close>. It is modelled as the list of records printed so far and passed
  through every call. A call of \<^verbatim>\<open>parse\<close> that does not return is \<open>None\<close>.
\<close>

type_synonym console = "ParseResult list"

type_synonym Parser = "string \<Rightarrow> console \<Rightarrow> (ParseResult \<times> console) option"

text \<open>
  The test \<^verbatim>\<open>state == Result.Ok && value !== undefined\<close>, which Pair, PMap,
  ZeroOrMore, Pred, Either, FixedEither and FlatMap apply to a sub-parser's record.
\<close>

definition succeeded :: "ParseResult \<Rightarrow> bool" where
  "succeeded r = (state r = Ok \<and> val r \<noteq> JUndefined)"

section \<open>Leaf parsers\<close>

definition Match_parse :: "string \<Rightarrow> Parser" where
  "Match_parse literal input c =
     (let next = take (length literal) input;
          remainder' = drop (length literal) input
      in if next = literal
         then Some (\<lparr>state = Ok, remainder = remainder', val = JStr literal, error = None\<rparr>, c)
         else Some (\<lparr>state = Error, remainder = input, val = JUndefined,
                     error = Some ''Couldn't match''\<rparr>, c))"

definition Item_parse :: Parser where
  "Item_parse input c =
     (if length input = 0
      then Some (\<lparr>state = Error, remainder = input, val = JUndefined,
                  error = Some ''Couldn't retrieve a single item, EOI''\<rparr>, c)
      else Some (\<lparr>state = Ok, remainder = drop 1 input, val = JStr (take 1 input),
                  error = None\<rparr>, c))"

text \<open>
  The character classes. \<^verbatim>\<open>isAlphabetic(input[0])\<close> on the empty input receives
  \<^verbatim>\<open>undefined\<close> and answers false: the argument is an optional character.
\<close>

definition isAlphabetic :: "char option \<Rightarrow> bool" where
  "isAlphabetic ch =
     (case ch of
        None \<Rightarrow> False
      | Some x \<Rightarrow> (let n = (of_char x :: nat)
                   in n \<ge> 65 \<and> n < 91 \<or> n \<ge> 97 \<and> n < 123))"

definition isNumeric :: "char \<Rightarrow> bool" where
  "isNumeric ch = ((of_char ch :: nat) \<ge> of_char CHR ''0'' \<and> (of_char ch :: nat) \<le> of_char CHR ''9'')"

definition isAlphanumeric :: "char \<Rightarrow> bool" where
  "isAlphanumeric ch = (isAlphabetic (Some ch) \<or> isNumeric ch)"

text \<open>The loop of \<^verbatim>\<open>Identifier.parse\<close>, from index \<open>i\<close> with counter \<open>n\<close>.\<close>

fun Identifier_count :: "string \<Rightarrow> nat \<Rightarrow> nat" where
  "Identifier_count [] n = n"
| "Identifier_count (x # xs) n =
     (if isAlphanumeric x \<or> x = CHR ''-'' then Identifier_count xs (n + 1) else n)"

definition Identifier_parse :: Parser where
  "Identifier_parse input c =
     (if \<not> isAlphabetic (case input of [] \<Rightarrow> None | x # _ \<Rightarrow> Some x)
      then Some (\<lparr>state = Error, remainder = input, val = JUndefined,
                  error = Some ''Couldn't parse identifier''\<rparr>, c)
      else let n = Identifier_count (drop 1 input) 1
           in Some (\<lparr>state = Ok, remainder = drop n input, val = JStr (take n input),
                     error = None\<rparr>, c))"

section \<open>Combinators\<close>

definition Inspect_parse :: "Parser \<Rightarrow> Parser" where
  "Inspect_parse parser input c =
     (case parser input c of
        None \<Rightarrow> None
      | Some (v, c') \<Rightarrow> Some (v, c' @ [v]))"

definition Pair_parse :: "Parser \<Rightarrow> Parser \<Rightarrow> Parser" where
  "Pair_parse parser1 parser2 input c =
     (case parser1 input c of
        None \<Rightarrow> None
      | Some (r1, c1) \<Rightarrow>
          if state r1 = Ok \<and> val r1 \<noteq> JUndefined
          then (case parser2 (remainder r1) c1 of
                  None \<Rightarrow> None
                | Some (r2, c2) \<Rightarrow>
                    if state r2 = Ok \<and> val r2 \<noteq> JUndefined
                    then Some (\<lparr>state = Ok, remainder = remainder r2,
                                val = JArr [val r1, val r2], error = None\<rparr>, c2)
                    else Some (\<lparr>state = Error, remainder = input, val = JUndefined,
                                error = error r2\<rparr>, c2))
          else Some (\<lparr>state = Error, remainder = input, val = JUndefined,
                      error = error r1\<rparr>, c1))"

definition PMap_parse :: "Parser \<Rightarrow> (jsval \<Rightarrow> jsval) \<Rightarrow> Parser" where
  "PMap_parse parser map_fn input c =
     (case parser input c of
        None \<Rightarrow> None
      | Some (r, c') \<Rightarrow>
          if state r = Ok \<and> val r \<noteq> JUndefined
          then Some (\<lparr>state = state r, remainder = remainder r, val = map_fn (val r),
                      error = None\<rparr>, c')
          else Some (\<lparr>state = state r, remainder = remainder r, val = JUndefined,
                      error = error r\<rparr>, c'))"

text \<open>
  The projections \<^verbatim>\<open>([result1, _]) => result1\<close> and \<^verbatim>\<open>([_, result2]) => result2\<close>
  read positions 0 and 1 of an array; a position past the end reads as undefined. They
  are only ever applied to the two-element array built by Pair.
\<close>

fun first_of :: "jsval \<Rightarrow> jsval" where
  "first_of (JArr (result1 # _)) = result1"
| "first_of _ = JUndefined"

fun second_of :: "jsval \<Rightarrow> jsval" where
  "second_of (JArr (_ # result2 # _)) = result2"
| "second_of _ = JUndefined"

definition Left_parse :: "Parser \<Rightarrow> Parser \<Rightarrow> Parser" where
  "Left_parse parser1 parser2 input c =
     PMap_parse (Pair_parse parser1 parser2) first_of input c"

definition Right_parse :: "Parser \<Rightarrow> Parser \<Rightarrow> Parser" where
  "Right_parse parser1 parser2 input c =
     PMap_parse (Pair_parse parser1 parser2) second_of input c"

text \<open>
  The loop \<^verbatim>\<open>while (true)\<close> of \<^verbatim>\<open>ZeroOrMore.parse\<close>, with the array
  \<open>result\<close> and the reassigned \<open>input\<close> as arguments. Nothing bounds the number of
  rounds, so the loop is a partial function: \<open>None\<close> when it never leaves.
\<close>

partial_function (option) ZeroOrMore_loop ::
  "Parser \<Rightarrow> jsval list \<Rightarrow> string \<Rightarrow> console \<Rightarrow> (ParseResult \<times> console) option" where
  "ZeroOrMore_loop parser result input c =
     (case parser input c of
        None \<Rightarrow> None
      | Some (r, c') \<Rightarrow>
          if state r = Ok \<and> val r \<noteq> JUndefined
          then ZeroOrMore_loop parser (result @ [val r]) (remainder r) c'
          else Some (\<lparr>state = Ok, remainder = input, val = JArr result, error = None\<rparr>, c'))"

definition ZeroOrMore_parse :: "Parser \<Rightarrow> Parser" where
  "ZeroOrMore_parse parser input c = ZeroOrMore_loop parser [] input c"

text \<open>
  \<^verbatim>\<open>([head, tail]) => { tail.unshift(head); return tail; }\<close>. It is only ever
  applied to the array that Pair builds from a value and the array of ZeroOrMore; that
  array is created by the same call, so putting \<open>head\<close> in front changes nothing that
  another call can see.
\<close>

fun unshift_head :: "jsval \<Rightarrow> jsval" where
  "unshift_head (JArr [head, JArr tail]) = JArr (head # tail)"
| "unshift_head _ = JUndefined"

definition OneOrMore_parse :: "Parser \<Rightarrow> Parser" where
  "OneOrMore_parse parser input c =
     PMap_parse (Pair_parse parser (ZeroOrMore_parse parser)) unshift_head input c"

definition Pred_parse :: "Parser \<Rightarrow> (jsval \<Rightarrow> bool) \<Rightarrow> Parser" where
  "Pred_parse parser pred_fn input c =
     (case parser input c of
        None \<Rightarrow> None
      | Some (r, c') \<Rightarrow>
          if state r = Ok \<and> val r \<noteq> JUndefined \<and> pred_fn (val r)
          then Some (\<lparr>state = state r, remainder = remainder r, val = val r,
                      error = None\<rparr>, c')
          else Some (\<lparr>state = state r, remainder = input, val = JUndefined,
                      error = Some ''Failed predicate''\<rparr>, c'))"

fun Either_parse :: "Parser list \<Rightarrow> Parser" where
  "Either_parse [] input c =
     Some (\<lparr>state = Error, remainder = input, val = JUndefined,
            error = Some ''No parser on the either succeed''\<rparr>, c)"
| "Either_parse (parser # parsers) input c =
     (case parser input c of
        None \<Rightarrow> None
      | Some (r, c') \<Rightarrow>
          if state r = Ok \<and> val r \<noteq> JUndefined
          then Some (\<lparr>state = state r, remainder = remainder r, val = val r,
                      error = None\<rparr>, c')
          else Either_parse parsers input c')"

fun FixedEither_parse :: "Parser list \<Rightarrow> Parser" where
  "FixedEither_parse [] input c =
     Some (\<lparr>state = Error, remainder = input, val = JUndefined,
            error = Some ''No parser on the either succeed''\<rparr>, c)"
| "FixedEither_parse (parser # parsers) input c =
     (case parser input c of
        None \<Rightarrow> None
      | Some (r, c') \<Rightarrow>
          if state r = Ok \<and> val r \<noteq> JUndefined
          then Some (\<lparr>state = state r, remainder = remainder r, val = val r,
                      error = None\<rparr>, c')
          else FixedEither_parse parsers input c')"

definition FlatMap_parse :: "Parser \<Rightarrow> (jsval \<Rightarrow> Parser) \<Rightarrow> Parser" where
  "FlatMap_parse parser monad_fn input c =
     (case parser input c of
        None \<Rightarrow> None
      | Some (r, c') \<Rightarrow>
          if state r = Ok \<and> val r \<noteq> JUndefined
          then monad_fn (val r) (remainder r) c'
          else Some (\<lparr>state = state r, remainder = remainder r, val = JUndefined,
                      error = error r\<rparr>, c'))"

definition Optional_parse :: "Parser \<Rightarrow> Parser" where
  "Optional_parse parser input c =
     (case parser input c of
        None \<Rightarrow> None
      | Some (r, c') \<Rightarrow>
          Some (\<lparr>state = Ok, remainder = remainder r,
                 val = (if truthy (val r) then val r else JNull), error = None\<rparr>, c'))"

fun Sequence_parse :: "Parser list \<Rightarrow> Parser" where
  "Sequence_parse [] input c =
     Some (\<lparr>state = Ok, remainder = input, val = JNull, error = None\<rparr>, c)"
| "Sequence_parse (parser # parsers) input c =
     (case parser input c of
        None \<Rightarrow> None
      | Some (r, c') \<Rightarrow>
          if state r = Error
          then Some (\<lparr>state = state r, remainder = remainder r, val = JUndefined,
                      error = Some ''Couldn't fulfill sequence of parsers''\<rparr>, c')
          else Sequence_parse parsers (remainder r) c')"

section \<open>Parser instances\<close>

text \<open>
  The classes of the library, each with the fields its constructor stores. The class
  Pair is written \<open>PairP\<close>.
\<close>

datatype parser =
    Match string
  | Item
  | Identifier
  | Inspect parser
  | PairP parser parser
  | PMap parser "jsval \<Rightarrow> jsval"
  | Left parser parser
  | Right parser parser
  | ZeroOrMore parser
  | OneOrMore parser
  | Pred parser "jsval \<Rightarrow> bool"
  | Either "parser list"
  | FixedEither "parser list"
  | FlatMap parser "jsval \<Rightarrow> parser"
  | Optional parser
  | Sequence "parser list"

text \<open>The method \<^verbatim>\<open>parse\<close>, dispatched on the class of the instance.\<close>

primrec parse :: "parser \<Rightarrow> Parser" where
  "parse (Match literal) = Match_parse literal"
| "parse Item = Item_parse"
| "parse Identifier = Identifier_parse"
| "parse (Inspect p) = Inspect_parse (parse p)"
| "parse (PairP p1 p2) = Pair_parse (parse p1) (parse p2)"
| "parse (PMap p map_fn) = PMap_parse (parse p) map_fn"
| "parse (Left p1 p2) = Left_parse (parse p1) (parse p2)"
| "parse (Right p1 p2) = Right_parse (parse p1) (parse p2)"
| "parse (ZeroOrMore p) = ZeroOrMore_parse (parse p)"
| "parse (OneOrMore p) = OneOrMore_parse (parse p)"
| "parse (Pred p pred_fn) = Pred_parse (parse p) pred_fn"
| "parse (Either ps) = Either_parse (map parse ps)"
| "parse (FixedEither ps) = FixedEither_parse (map parse ps)"
| "parse (FlatMap p monad_fn) = FlatMap_parse (parse p) (\<lambda>v. parse (monad_fn v))"
| "parse (Optional p) = Optional_parse (parse p)"
| "parse (Sequence ps) = Sequence_parse (map parse ps)"

declare ZeroOrMore_loop.simps [code]

section \<open>Notions used by the properties\<close>

text \<open>
  The invariant of a record: a successful one carries a value and no message, a failed
  one a message and no value.
\<close>

definition record_invariant :: "ParseResult \<Rightarrow> bool" where
  "record_invariant r =
     (case state r of
        Ok \<Rightarrow> val r \<noteq> JUndefined \<and> error r = None
      | Error \<Rightarrow> error r \<noteq> None \<and> val r = JUndefined)"

text \<open>
  \<open>all_succeed ps s c s' c'\<close>: run in order from input \<open>s\<close> and console \<open>c\<close>, each
  parser of \<open>ps\<close> returns a record whose state is not Error, each one starting at the
  remainder of the one before; \<open>s'\<close> and \<open>c'\<close> are the input and the console reached.
\<close>

inductive all_succeed ::
  "Parser list \<Rightarrow> string \<Rightarrow> console \<Rightarrow> string \<Rightarrow> console \<Rightarrow> bool" where
  all_succeed_Nil: "all_succeed [] s c s c"
| all_succeed_Cons: "p s c = Some (r, c1) \<Longrightarrow> state r \<noteq> Error \<Longrightarrow>
     all_succeed ps (remainder r) c1 s' c' \<Longrightarrow> all_succeed (p # ps) s c s' c'"

text \<open>
  \<open>ZeroOrMore_run P s c vs s' c'\<close>: the maximal run of consecutive successes of \<open>P\<close>
  from \<open>s\<close>. \<open>vs\<close> are the values in order, every application starts at the remainder
  of the one before, and the application of \<open>P\<close> at \<open>s'\<close> returns without success.
\<close>

inductive ZeroOrMore_run ::
  "Parser \<Rightarrow> string \<Rightarrow> console \<Rightarrow> jsval list \<Rightarrow> string \<Rightarrow> console \<Rightarrow> bool" where
  run_stop: "P s c = Some (r, c') \<Longrightarrow> \<not> succeeded r \<Longrightarrow> ZeroOrMore_run P s c [] s c'"
| run_step: "P s c = Some (r, c1) \<Longrightarrow> succeeded r \<Longrightarrow>
     ZeroOrMore_run P (remainder r) c1 vs s' c' \<Longrightarrow>
     ZeroOrMore_run P s c (val r # vs) s' c'"

definition always_returns :: "Parser \<Rightarrow> bool" where
  "always_returns P = (\<forall>s c. P s c \<noteq> None)"

definition consumes_on_success :: "Parser \<Rightarrow> bool" where
  "consumes_on_success P =
     (\<forall>s c r c'. P s c = Some (r, c') \<longrightarrow> succeeded r \<longrightarrow>
        length (remainder r) < length s)"

text \<open>Every record a parser returns has a remainder that is a suffix of the input.\<close>

definition remainder_suffix :: "Parser \<Rightarrow> bool" where
  "remainder_suffix P = (\<forall>s c r c'. P s c = Some (r, c') \<longrightarrow> suffix (remainder r) s)"

text \<open>
  The record a parser returns does not depend on the console it is called with: a call
  that returns a record from one console returns the same record from any other.
\<close>

definition console_independent :: "Parser \<Rightarrow> bool" where
  "console_independent P =
     (\<forall>s c r c'. P s c = Some (r, c') \<longrightarrow> (\<forall>d. \<exists>d'. P s d = Some (r, d')))"

section \<open>Pred\<close>

text \<open>
  C1. \<^verbatim>\<open>Pred(P, f).parse(s)\<close> should report Failure when \<open>P\<close> succeeds and \<open>f\<close>
  rejects the value. On \<^verbatim>\<open>new Item().pred(ch => ch === " ").parse("a")\<close> the code
  resets the remainder and sets the message, but the state it returns is the one of
  \<open>P\<close>, which is Ok.
\<close>

theorem Pred_rejected_keeps_Ok_state:
  "Pred_parse Item_parse (\<lambda>ch. ch = JStr '' '') ''a'' [] =
     Some (\<lparr>state = Ok, remainder = ''a'', val = JUndefined,
            error = Some ''Failed predicate''\<rparr>, [])"
  by (simp add: Pred_parse_def Item_parse_def)

text \<open>
  C2. Every record returned by a combinator should satisfy the record invariant. The
  record that the instance \<^verbatim>\<open>new Item().pred(ch => ch === " ")\<close> returns on \<^verbatim>\<open>"a"\<close>
  has state Ok, no value and a message.
\<close>

theorem Pred_rejected_breaks_record_invariant:
  "parse (Pred Item (\<lambda>ch. ch = JStr '' '')) ''a'' [] =
     Some (\<lparr>state = Ok, remainder = ''a'', val = JUndefined,
            error = Some ''Failed predicate''\<rparr>, [])
   \<and> \<not> record_invariant \<lparr>state = Ok, remainder = ''a'', val = JUndefined,
            error = Some ''Failed predicate''\<rparr>"
  by (simp add: Pred_parse_def Item_parse_def record_invariant_def)

section \<open>FlatMap\<close>

theorem FlatMap_failure_remainder_counterexample:
  "FlatMap_parse Item_parse (\<lambda>_. Match_parse ''x'') ''ab'' [] =
     Some (\<lparr>state = Error, remainder = ''b'', val = JUndefined,
            error = Some ''Couldn't match''\<rparr>, [])
   \<and> ''b'' \<noteq> ''ab''"
  by (simp add: FlatMap_parse_def Item_parse_def Match_parse_def)

text \<open>
  C3, as amended. When \<^verbatim>\<open>FlatMap(P, f).parse(s)\<close> returns a Failure record, either
  \<open>P\<close> returned Failure on \<open>s\<close> and the remainder is the one \<open>P\<close> reported, or \<open>P\<close>
  succeeded and the record is, unchanged, the one that the parser \<open>f(value)\<close> returned
  on the remainder of \<open>P\<close>: its remainder is not reset to \<open>s\<close>.
\<close>

theorem FlatMap_failure_remainder:
  assumes "FlatMap_parse P f s c = Some (r, c')" and "state r = Error"
  shows "(\<exists>r1. P s c = Some (r1, c') \<and> state r1 = Error \<and> remainder r = remainder r1)
       \<or> (\<exists>r1 c1. P s c = Some (r1, c1) \<and> succeeded r1
              \<and> f (val r1) (remainder r1) c1 = Some (r, c'))"
  using assms
  by (auto simp: FlatMap_parse_def succeeded_def split: option.splits if_splits)

theorem FlatMap_failure_remainder_witness:
  "FlatMap_parse Item_parse (\<lambda>_. Match_parse ''x'') ''ab'' [] =
     Some (\<lparr>state = Error, remainder = ''b'', val = JUndefined,
            error = Some ''Couldn't match''\<rparr>, [])
   \<and> ((\<exists>r1. Item_parse ''ab'' [] = Some (r1, []) \<and> state r1 = Error \<and> ''b'' = remainder r1)
       \<or> (\<exists>r1 c1. Item_parse ''ab'' [] = Some (r1, c1) \<and> succeeded r1
              \<and> Match_parse ''x'' (remainder r1) c1 =
                  Some (\<lparr>state = Error, remainder = ''b'', val = JUndefined,
                         error = Some ''Couldn't match''\<rparr>, [])))"
proof -
  have run: "FlatMap_parse Item_parse (\<lambda>_. Match_parse ''x'') ''ab'' [] =
     Some (\<lparr>state = Error, remainder = ''b'', val = JUndefined,
            error = Some ''Couldn't match''\<rparr>, [])"
    by (simp add: FlatMap_parse_def Item_parse_def Match_parse_def)
  from FlatMap_failure_remainder [OF run] run show ?thesis by simp
qed

section \<open>ZeroOrMore\<close>

lemma ZeroOrMore_loop_run:
  "ZeroOrMore_run P s c vs s' c' \<Longrightarrow>
     ZeroOrMore_loop P acc s c =
       Some (\<lparr>state = Ok, remainder = s', val = JArr (acc @ vs), error = None\<rparr>, c')"
proof (induction arbitrary: acc rule: ZeroOrMore_run.induct)
  case (run_stop P s c r c')
  then show ?case
    by (auto simp: ZeroOrMore_loop.simps [of P acc s c] succeeded_def)
next
  case (run_step P s c r c1 vs s' c')
  from run_step.IH [of "acc @ [val r]"] run_step.hyps(1,2) show ?case
    by (simp add: ZeroOrMore_loop.simps [of P acc s c] succeeded_def)
qed

lemma ZeroOrMore_run_exists:
  assumes "always_returns P" and "consumes_on_success P"
  shows "\<exists>vs s' c'. ZeroOrMore_run P s c vs s' c'"
proof (induction s arbitrary: c rule: length_induct)
  case (1 s)
  from assms(1) have "P s c \<noteq> None"
    by (simp add: always_returns_def)
  then obtain r c1 where step: "P s c = Some (r, c1)"
    by (cases "P s c") auto
  show ?case
  proof (cases "succeeded r")
    case False
    with step show ?thesis by (blast intro: run_stop)
  next
    case True
    with step assms(2) have "length (remainder r) < length s"
      by (auto simp: consumes_on_success_def)
    with 1 obtain vs s' c' where "ZeroOrMore_run P (remainder r) c1 vs s' c'"
      by blast
    with step True show ?thesis by (blast intro: run_step)
  qed
qed

text \<open>
  \<^verbatim>\<open>Match("")\<close> succeeds on every input and consumes nothing: the loop never leaves.
\<close>

lemma ZeroOrMore_loop_Match_empty: "ZeroOrMore_loop (Match_parse []) acc s c = None"
proof (rule ccontr)
  assume "ZeroOrMore_loop (Match_parse []) acc s c \<noteq> None"
  then obtain y where ret: "ZeroOrMore_loop (Match_parse []) acc s c = Some y"
    by auto
  have "Match_parse [] \<noteq> Match_parse []"
  proof (rule ZeroOrMore_loop.raw_induct
      [where P = "\<lambda>parser _ _ _ _. parser \<noteq> Match_parse []", OF _ ret])
    fix loop parser result input c y
    assume IH: "\<And>parser result input c y.
        loop parser result input c = Some y \<Longrightarrow> parser \<noteq> Match_parse []"
      and body: "(case parser input c of
          None \<Rightarrow> None
        | Some (r, c') \<Rightarrow>
            if state r = Ok \<and> val r \<noteq> JUndefined
            then loop parser (result @ [val r]) (remainder r) c'
            else Some (\<lparr>state = Ok, remainder = input, val = JArr result,
                        error = None\<rparr>, c')) = Some y"
    show "parser \<noteq> Match_parse []"
    proof
      assume eq: "parser = Match_parse []"
      with body have "loop parser (result @ [JStr []]) input c = Some y"
        by (simp add: Match_parse_def)
      from IH [OF this] eq show False by simp
    qed
  qed
  then show False by simp
qed

theorem ZeroOrMore_Match_empty_never_returns:
  "ZeroOrMore_parse (Match_parse '''') ''a'' [] = None"
  by (simp add: ZeroOrMore_parse_def ZeroOrMore_loop_Match_empty)

text \<open>
  C4, as amended. Whenever the maximal run of consecutive successes of \<open>P\<close> from \<open>s\<close> is
  finite, \<^verbatim>\<open>ZeroOrMore(P).parse(s)\<close> returns Success with the values of that run, in
  order, and the remainder left after the last success. It is finite, so the call
  returns, for every \<open>P\<close> that always returns and whose every success leaves a strictly
  shorter remainder. Zero matches give the empty sequence and the remainder \<open>s\<close>.
  (For a parser that succeeds without consuming input, such as \<^verbatim>\<open>Match("")\<close>, the
  call does not return.)
\<close>

theorem ZeroOrMore_maximal_run:
  "(ZeroOrMore_run P s c vs s' c' \<longrightarrow>
      ZeroOrMore_parse P s c =
        Some (\<lparr>state = Ok, remainder = s', val = JArr vs, error = None\<rparr>, c'))
   \<and> (always_returns P \<and> consumes_on_success P \<longrightarrow>
        (\<exists>ws t d. ZeroOrMore_run P s c ws t d
           \<and> ZeroOrMore_parse P s c =
               Some (\<lparr>state = Ok, remainder = t, val = JArr ws, error = None\<rparr>, d)))
   \<and> (P s c = Some (r, c') \<and> \<not> succeeded r \<longrightarrow>
        ZeroOrMore_parse P s c =
          Some (\<lparr>state = Ok, remainder = s, val = JArr [], error = None\<rparr>, c'))"
proof (intro conjI impI)
  assume "ZeroOrMore_run P s c vs s' c'"
  from ZeroOrMore_loop_run [OF this, of "[]"]
  show "ZeroOrMore_parse P s c =
        Some (\<lparr>state = Ok, remainder = s', val = JArr vs, error = None\<rparr>, c')"
    by (simp add: ZeroOrMore_parse_def)
next
  assume "always_returns P \<and> consumes_on_success P"
  then obtain ws t d where run: "ZeroOrMore_run P s c ws t d"
    using ZeroOrMore_run_exists by blast
  from ZeroOrMore_loop_run [OF run, of "[]"] run
  show "\<exists>ws t d. ZeroOrMore_run P s c ws t d
           \<and> ZeroOrMore_parse P s c =
               Some (\<lparr>state = Ok, remainder = t, val = JArr ws, error = None\<rparr>, d)"
    by (auto simp: ZeroOrMore_parse_def)
next
  assume "P s c = Some (r, c') \<and> \<not> succeeded r"
  then show "ZeroOrMore_parse P s c =
          Some (\<lparr>state = Ok, remainder = s, val = JArr [], error = None\<rparr>, c')"
    by (auto simp: ZeroOrMore_parse_def ZeroOrMore_loop.simps [of P "[]" s c] succeeded_def)
qed

lemma Match_a_returns: "always_returns (Match_parse ''a'')"
  by (simp add: always_returns_def Match_parse_def)

lemma Match_a_consumes: "consumes_on_success (Match_parse ''a'')"
proof -
  have "take (Suc 0) s = ''a'' \<Longrightarrow> length s - Suc 0 < length s" for s :: string
    by (cases s) auto
  then show ?thesis
    by (auto simp: consumes_on_success_def Match_parse_def succeeded_def Let_def
        split: if_splits)
qed

lemma ZeroOrMore_run_Match_a:
  "ZeroOrMore_run (Match_parse ''a'') ''aab'' [] [JStr ''a'', JStr ''a''] ''b'' []"
proof -
  let ?hit = "\<lambda>rest. \<lparr>state = Ok, remainder = rest, val = JStr ''a'', error = None\<rparr>"
  have "ZeroOrMore_run (Match_parse ''a'') ''b'' [] [] ''b'' []"
    by (rule run_stop [of _ _ _ "\<lparr>state = Error, remainder = ''b'', val = JUndefined,
          error = Some ''Couldn't match''\<rparr>"]) (simp_all add: Match_parse_def succeeded_def)
  then have "ZeroOrMore_run (Match_parse ''a'') ''ab'' [] (val (?hit ''b'') # []) ''b'' []"
    by (intro run_step) (simp_all add: Match_parse_def succeeded_def)
  then have "ZeroOrMore_run (Match_parse ''a'') ''aab'' []
      (val (?hit ''ab'') # [JStr ''a'']) ''b'' []"
    by (intro run_step) (simp_all add: Match_parse_def succeeded_def)
  then show ?thesis by simp
qed

theorem ZeroOrMore_maximal_run_witness:
  "ZeroOrMore_run (Match_parse ''a'') ''aab'' [] [JStr ''a'', JStr ''a''] ''b'' []
   \<and> ZeroOrMore_parse (Match_parse ''a'') ''aab'' [] =
        Some (\<lparr>state = Ok, remainder = ''b'', val = JArr [JStr ''a'', JStr ''a''],
               error = None\<rparr>, [])
   \<and> always_returns (Match_parse ''a'') \<and> consumes_on_success (Match_parse ''a'')
   \<and> (\<exists>ws t d. ZeroOrMore_run (Match_parse ''a'') ''aab'' [] ws t d
           \<and> ZeroOrMore_parse (Match_parse ''a'') ''aab'' [] =
               Some (\<lparr>state = Ok, remainder = t, val = JArr ws, error = None\<rparr>, d))
   \<and> Match_parse ''a'' ''b'' [] =
        Some (\<lparr>state = Error, remainder = ''b'', val = JUndefined,
               error = Some ''Couldn't match''\<rparr>, [])
   \<and> ZeroOrMore_parse (Match_parse ''a'') ''b'' [] =
        Some (\<lparr>state = Ok, remainder = ''b'', val = JArr [], error = None\<rparr>, [])"
  using ZeroOrMore_maximal_run [where P = "Match_parse ''a''" and s = "''aab''" and c = "[]"
          and vs = "[JStr ''a'', JStr ''a'']" and s' = "''b''" and c' = "[]"]
    ZeroOrMore_maximal_run [where P = "Match_parse ''a''" and s = "''b''" and c = "[]"
      and c' = "[]" and r = "\<lparr>state = Error, remainder = ''b'', val = JUndefined,
         error = Some ''Couldn't match''\<rparr>"]
    ZeroOrMore_run_Match_a Match_a_returns Match_a_consumes
  by (simp add: Match_parse_def succeeded_def)

section \<open>Pair\<close>

text \<open>
  C5. \<^verbatim>\<open>Pair(P1, P2).parse(s)\<close> returns Success with the two values as a tuple and the
  remainder of \<open>P2\<close> when \<open>P1\<close> succeeds on \<open>s\<close> and \<open>P2\<close> succeeds on the remainder of
  \<open>P1\<close>; when either fails it returns Failure with remainder \<open>s\<close> and the message of
  the one that failed. \<^verbatim>\<open>Pair(Match("Hello"), Item).parse("Hello World")\<close> succeeds with
  value \<^verbatim>\<open>("Hello", " ")\<close> and remainder \<^verbatim>\<open>"World"\<close>. A sub-parser succeeds when its
  record passes the test of the code: state Ok and a value that is not undefined.
\<close>

theorem Pair_parse_atomic:
  assumes "P1 s c = Some (r1, c1)"
  shows "(succeeded r1 \<and> P2 (remainder r1) c1 = Some (r2, c2) \<and> succeeded r2 \<longrightarrow>
            Pair_parse P1 P2 s c =
              Some (\<lparr>state = Ok, remainder = remainder r2, val = JArr [val r1, val r2],
                     error = None\<rparr>, c2))
       \<and> (\<not> succeeded r1 \<longrightarrow>
            Pair_parse P1 P2 s c =
              Some (\<lparr>state = Error, remainder = s, val = JUndefined, error = error r1\<rparr>, c1))
       \<and> (succeeded r1 \<and> P2 (remainder r1) c1 = Some (r2, c2) \<and> \<not> succeeded r2 \<longrightarrow>
            Pair_parse P1 P2 s c =
              Some (\<lparr>state = Error, remainder = s, val = JUndefined, error = error r2\<rparr>, c2))
       \<and> Pair_parse (Match_parse ''Hello'') Item_parse ''Hello World'' c =
            Some (\<lparr>state = Ok, remainder = ''World'', val = JArr [JStr ''Hello'', JStr '' ''],
                   error = None\<rparr>, c)"
  using assms
  by (simp add: Pair_parse_def succeeded_def Match_parse_def Item_parse_def)

theorem Pair_parse_atomic_witness:
  "Match_parse ''Hello'' ''Hello World'' [] =
      Some (\<lparr>state = Ok, remainder = '' World'', val = JStr ''Hello'', error = None\<rparr>, [])
   \<and> Item_parse '' World'' [] =
      Some (\<lparr>state = Ok, remainder = ''World'', val = JStr '' '', error = None\<rparr>, [])
   \<and> Pair_parse (Match_parse ''Hello'') Item_parse ''Hello World'' [] =
      Some (\<lparr>state = Ok, remainder = ''World'', val = JArr [JStr ''Hello'', JStr '' ''],
             error = None\<rparr>, [])
   \<and> Match_parse ''Hello'' ''Help'' [] =
      Some (\<lparr>state = Error, remainder = ''Help'', val = JUndefined,
             error = Some ''Couldn't match''\<rparr>, [])
   \<and> Pair_parse (Match_parse ''Hello'') Item_parse ''Help'' [] =
      Some (\<lparr>state = Error, remainder = ''Help'', val = JUndefined,
             error = Some ''Couldn't match''\<rparr>, [])
   \<and> Match_parse ''Hello'' ''Hello'' [] =
      Some (\<lparr>state = Ok, remainder = '''', val = JStr ''Hello'', error = None\<rparr>, [])
   \<and> Item_parse '''' [] =
      Some (\<lparr>state = Error, remainder = '''', val = JUndefined,
             error = Some ''Couldn't retrieve a single item, EOI''\<rparr>, [])
   \<and> Pair_parse (Match_parse ''Hello'') Item_parse ''Hello'' [] =
      Some (\<lparr>state = Error, remainder = ''Hello'', val = JUndefined,
             error = Some ''Couldn't retrieve a single item, EOI''\<rparr>, [])"
proof -
  have m1: "Match_parse ''Hello'' ''Hello World'' [] =
      Some (\<lparr>state = Ok, remainder = '' World'', val = JStr ''Hello'', error = None\<rparr>, [])"
    and m2: "Match_parse ''Hello'' ''Help'' [] =
      Some (\<lparr>state = Error, remainder = ''Help'', val = JUndefined,
             error = Some ''Couldn't match''\<rparr>, [])"
    and m3: "Match_parse ''Hello'' ''Hello'' [] =
      Some (\<lparr>state = Ok, remainder = '''', val = JStr ''Hello'', error = None\<rparr>, [])"
    by (simp_all add: Match_parse_def)
  have i1: "Item_parse '' World'' [] =
      Some (\<lparr>state = Ok, remainder = ''World'', val = JStr '' '', error = None\<rparr>, [])"
    and i3: "Item_parse '''' [] =
      Some (\<lparr>state = Error, remainder = '''', val = JUndefined,
             error = Some ''Couldn't retrieve a single item, EOI''\<rparr>, [])"
    by (simp_all add: Item_parse_def)
  let ?eoi = "\<lparr>state = Error, remainder = '''', val = JUndefined,
             error = Some ''Couldn't retrieve a single item, EOI''\<rparr>"
  let ?nomatch = "\<lparr>state = Error, remainder = ''Help'', val = JUndefined,
             error = Some ''Couldn't match''\<rparr>"
  from Pair_parse_atomic [of "Match_parse ''Hello''" "''Hello World''" "[]"
      "\<lparr>state = Ok, remainder = '' World'', val = JStr ''Hello'', error = None\<rparr>" "[]"
      Item_parse
      "\<lparr>state = Ok, remainder = ''World'', val = JStr '' '', error = None\<rparr>" "[]"]
    Pair_parse_atomic [of "Match_parse ''Hello''" "''Help''" "[]" ?nomatch "[]"
      Item_parse ?eoi "[]"]
    Pair_parse_atomic [of "Match_parse ''Hello''" "''Hello''" "[]"
      "\<lparr>state = Ok, remainder = '''', val = JStr ''Hello'', error = None\<rparr>" "[]"
      Item_parse ?eoi "[]"]
    m1 m2 m3 i1 i3
  show ?thesis by (simp add: succeeded_def)
qed

section \<open>Sequence\<close>

lemma Sequence_all_succeed:
  "all_succeed ps s c s' c' \<Longrightarrow>
     Sequence_parse (ps @ qs) s c = Sequence_parse qs s' c'"
  by (induction rule: all_succeed.induct) auto

text \<open>
  C6. Sequence applies its sub-parsers in order and stops at the first one that returns
  Failure: the record it returns is a Failure whose remainder is the remainder of that
  sub-parser, not the original input, and the sub-parsers after it are not applied. If
  every sub-parser succeeds, it returns Success with value null and the final remainder.
\<close>

theorem Sequence_stops_at_first_failure:
  "(all_succeed ps s c s' c' \<longrightarrow>
      Sequence_parse ps s c =
        Some (\<lparr>state = Ok, remainder = s', val = JNull, error = None\<rparr>, c'))
   \<and> (all_succeed ps s c s' c' \<and> p s' c' = Some (r, c'') \<and> state r = Error \<longrightarrow>
      Sequence_parse (ps @ p # qs) s c =
        Some (\<lparr>state = Error, remainder = remainder r, val = JUndefined,
               error = Some ''Couldn't fulfill sequence of parsers''\<rparr>, c''))"
  using Sequence_all_succeed [of ps s c s' c' "[]"]
    Sequence_all_succeed [of ps s c s' c' "p # qs"]
  by auto

lemma all_succeed_Item: "all_succeed [Item_parse] ''ab'' [] ''b'' []"
  by (rule all_succeed_Cons [of _ _ _
        "\<lparr>state = Ok, remainder = ''b'', val = JStr ''a'', error = None\<rparr>" "[]"])
     (simp_all add: Item_parse_def all_succeed_Nil)

theorem Sequence_stops_at_first_failure_witness:
  "all_succeed [Item_parse] ''ab'' [] ''b'' []
   \<and> Sequence_parse [Item_parse] ''ab'' [] =
       Some (\<lparr>state = Ok, remainder = ''b'', val = JNull, error = None\<rparr>, [])
   \<and> Match_parse ''x'' ''b'' [] =
       Some (\<lparr>state = Error, remainder = ''b'', val = JUndefined,
              error = Some ''Couldn't match''\<rparr>, [])
   \<and> Sequence_parse ([Item_parse] @ Match_parse ''x'' # [Item_parse]) ''ab'' [] =
       Some (\<lparr>state = Error, remainder = ''b'', val = JUndefined,
              error = Some ''Couldn't fulfill sequence of parsers''\<rparr>, [])
   \<and> ''b'' \<noteq> ''ab''"
proof -
  have m: "Match_parse ''x'' ''b'' [] =
       Some (\<lparr>state = Error, remainder = ''b'', val = JUndefined,
              error = Some ''Couldn't match''\<rparr>, [])"
    by (simp add: Match_parse_def)
  from Sequence_stops_at_first_failure [of "[Item_parse]" "''ab''" "[]" "''b''" "[]"
      "Match_parse ''x''"
      "\<lparr>state = Error, remainder = ''b'', val = JUndefined,
         error = Some ''Couldn't match''\<rparr>" "[]" "[Item_parse]"] all_succeed_Item m
  show ?thesis by simp
qed

section \<open>Optional\<close>

text \<open>
  C9. When \<open>P\<close> succeeds on \<open>s\<close> with a falsy value (the empty string, the number 0,
  false or null), \<^verbatim>\<open>Optional(P).parse(s)\<close> returns Success with value null and with
  the remainder of \<open>P\<close>. Null is also the value when \<open>P\<close> fails (its record then has no
  value), so the two cases cannot be told apart by the value.
\<close>

theorem Optional_falsy_value_is_null:
  assumes "P s c = Some (r, c')"
  shows "(state r = Ok \<and> (val r = JStr [] \<or> val r = JNum 0 \<or> val r = JBool False
            \<or> val r = JNull) \<longrightarrow>
            Optional_parse P s c =
              Some (\<lparr>state = Ok, remainder = remainder r, val = JNull, error = None\<rparr>, c'))
       \<and> (state r = Error \<and> val r = JUndefined \<longrightarrow>
            Optional_parse P s c =
              Some (\<lparr>state = Ok, remainder = remainder r, val = JNull, error = None\<rparr>, c'))"
  using assms by (auto simp: Optional_parse_def)

theorem Optional_falsy_value_is_null_witness:
  "Match_parse '''' ''ab'' [] =
      Some (\<lparr>state = Ok, remainder = ''ab'', val = JStr '''', error = None\<rparr>, [])
   \<and> Optional_parse (Match_parse '''') ''ab'' [] =
      Some (\<lparr>state = Ok, remainder = ''ab'', val = JNull, error = None\<rparr>, [])
   \<and> Match_parse ''x'' ''ab'' [] =
      Some (\<lparr>state = Error, remainder = ''ab'', val = JUndefined,
             error = Some ''Couldn't match''\<rparr>, [])
   \<and> Optional_parse (Match_parse ''x'') ''ab'' [] =
      Some (\<lparr>state = Ok, remainder = ''ab'', val = JNull, error = None\<rparr>, [])"
proof -
  have m1: "Match_parse '''' ''ab'' [] =
      Some (\<lparr>state = Ok, remainder = ''ab'', val = JStr '''', error = None\<rparr>, [])"
    and m2: "Match_parse ''x'' ''ab'' [] =
      Some (\<lparr>state = Error, remainder = ''ab'', val = JUndefined,
             error = Some ''Couldn't match''\<rparr>, [])"
    by (simp_all add: Match_parse_def)
  from Optional_falsy_value_is_null [of "Match_parse ''''" "''ab''" "[]"
      "\<lparr>state = Ok, remainder = ''ab'', val = JStr '''', error = None\<rparr>" "[]"]
    Optional_falsy_value_is_null [of "Match_parse ''x''" "''ab''" "[]"
      "\<lparr>state = Error, remainder = ''ab'', val = JUndefined,
         error = Some ''Couldn't match''\<rparr>" "[]"]
    m1 m2
  show ?thesis by simp
qed

section \<open>The remainder is a suffix of the input\<close>

lemma remainder_suffixD:
  "remainder_suffix P \<Longrightarrow> P s c = Some (r, c') \<Longrightarrow> suffix (remainder r) s"
  by (auto simp: remainder_suffix_def)

lemma suffix_Match: "remainder_suffix (Match_parse literal)"
  by (auto simp: remainder_suffix_def Match_parse_def Let_def suffix_drop split: if_splits)

lemma suffix_Item: "remainder_suffix Item_parse"
  by (auto simp: remainder_suffix_def Item_parse_def suffix_drop split: if_splits)

lemma suffix_Identifier: "remainder_suffix Identifier_parse"
  by (auto simp: remainder_suffix_def Identifier_parse_def Let_def suffix_drop split: if_splits)

lemma suffix_Inspect: "remainder_suffix P \<Longrightarrow> remainder_suffix (Inspect_parse P)"
  by (auto simp: remainder_suffix_def Inspect_parse_def split: option.splits)

lemma suffix_Pair:
  assumes "remainder_suffix P1" and "remainder_suffix P2"
  shows "remainder_suffix (Pair_parse P1 P2)"
  unfolding remainder_suffix_def
proof (intro allI impI)
  fix s c r c'
  assume ret: "Pair_parse P1 P2 s c = Some (r, c')"
  show "suffix (remainder r) s"
  proof (cases "state r")
    case Error
    with ret show ?thesis
      by (auto simp: Pair_parse_def split: option.splits if_splits)
  next
    case Ok
    with ret obtain r1 c1 r2 where "P1 s c = Some (r1, c1)"
      and "P2 (remainder r1) c1 = Some (r2, c')" and "remainder r = remainder r2"
      by (auto simp: Pair_parse_def split: option.splits if_splits)
    with assms show ?thesis
      by (metis remainder_suffixD suffix_order.trans)
  qed
qed

lemma suffix_PMap: "remainder_suffix P \<Longrightarrow> remainder_suffix (PMap_parse P g)"
  by (auto simp: remainder_suffix_def PMap_parse_def split: option.splits if_splits)

lemma suffix_Pred: "remainder_suffix P \<Longrightarrow> remainder_suffix (Pred_parse P g)"
  by (auto simp: remainder_suffix_def Pred_parse_def split: option.splits if_splits)

lemma suffix_Optional: "remainder_suffix P \<Longrightarrow> remainder_suffix (Optional_parse P)"
  by (auto simp: remainder_suffix_def Optional_parse_def split: option.splits if_splits)

lemma suffix_FlatMap:
  assumes "remainder_suffix P" and "\<And>v. remainder_suffix (f v)"
  shows "remainder_suffix (FlatMap_parse P f)"
  unfolding remainder_suffix_def
proof (intro allI impI)
  fix s c r c'
  assume ret: "FlatMap_parse P f s c = Some (r, c')"
  then obtain r1 c1 where first: "P s c = Some (r1, c1)"
    by (auto simp: FlatMap_parse_def split: option.splits)
  show "suffix (remainder r) s"
  proof (cases "state r1 = Ok \<and> val r1 \<noteq> JUndefined")
    case True
    with ret first have "f (val r1) (remainder r1) c1 = Some (r, c')"
      by (simp add: FlatMap_parse_def)
    with assms first show ?thesis
      by (metis remainder_suffixD suffix_order.trans)
  next
    case False
    with ret first assms(1) show ?thesis
      by (auto simp: FlatMap_parse_def dest: remainder_suffixD)
  qed
qed

lemma suffix_Either:
  "(\<And>P. P \<in> set Ps \<Longrightarrow> remainder_suffix P) \<Longrightarrow> remainder_suffix (Either_parse Ps)"
proof (induction Ps)
  case Nil
  then show ?case by (simp add: remainder_suffix_def)
next
  case (Cons P Ps)
  then have P: "remainder_suffix P" and rest: "remainder_suffix (Either_parse Ps)"
    by simp_all
  show ?case
    unfolding remainder_suffix_def
    using P rest
    by (auto split: option.splits if_splits dest: remainder_suffixD)
qed

lemma suffix_FixedEither:
  "(\<And>P. P \<in> set Ps \<Longrightarrow> remainder_suffix P) \<Longrightarrow> remainder_suffix (FixedEither_parse Ps)"
proof (induction Ps)
  case Nil
  then show ?case by (simp add: remainder_suffix_def)
next
  case (Cons P Ps)
  then have P: "remainder_suffix P" and rest: "remainder_suffix (FixedEither_parse Ps)"
    by simp_all
  show ?case
    unfolding remainder_suffix_def
    using P rest
    by (auto split: option.splits if_splits dest: remainder_suffixD)
qed

lemma suffix_Sequence:
  "(\<And>P. P \<in> set Ps \<Longrightarrow> remainder_suffix P) \<Longrightarrow> remainder_suffix (Sequence_parse Ps)"
proof (induction Ps)
  case Nil
  then show ?case by (simp add: remainder_suffix_def)
next
  case (Cons P Ps)
  then have P: "remainder_suffix P" and rest: "remainder_suffix (Sequence_parse Ps)"
    by simp_all
  show ?case
    unfolding remainder_suffix_def
  proof (intro allI impI)
    fix s c r c'
    assume ret: "Sequence_parse (P # Ps) s c = Some (r, c')"
    then obtain r1 c1 where first: "P s c = Some (r1, c1)"
      by (auto split: option.splits)
    with P have 1: "suffix (remainder r1) s" by (rule remainder_suffixD)
    show "suffix (remainder r) s"
    proof (cases "state r1 = Error")
      case True
      with ret first 1 show ?thesis by auto
    next
      case False
      with ret first have "Sequence_parse Ps (remainder r1) c1 = Some (r, c')" by simp
      with rest have "suffix (remainder r) (remainder r1)" by (rule remainder_suffixD)
      with 1 show ?thesis by (rule suffix_order.trans [rotated])
    qed
  qed
qed

lemma suffix_ZeroOrMore_loop:
  assumes "ZeroOrMore_loop P acc s c = Some y" and "remainder_suffix P"
  shows "suffix (remainder (fst y)) s"
proof -
  have "remainder_suffix P \<longrightarrow> suffix (remainder (fst y)) s"
  proof (rule ZeroOrMore_loop.raw_induct
      [where P = "\<lambda>parser _ input _ y. remainder_suffix parser \<longrightarrow>
                    suffix (remainder (fst y)) input", OF _ assms(1)])
    fix loop parser result input c y
    assume IH: "\<And>parser result input c y.
        loop parser result input c = Some y \<Longrightarrow>
        remainder_suffix parser \<longrightarrow> suffix (remainder (fst y)) input"
      and body: "(case parser input c of
          None \<Rightarrow> None
        | Some (r, c') \<Rightarrow>
            if state r = Ok \<and> val r \<noteq> JUndefined
            then loop parser (result @ [val r]) (remainder r) c'
            else Some (\<lparr>state = Ok, remainder = input, val = JArr result,
                        error = None\<rparr>, c')) = Some y"
    show "remainder_suffix parser \<longrightarrow> suffix (remainder (fst y)) input"
    proof
      assume inv: "remainder_suffix parser"
      from body obtain r c' where first: "parser input c = Some (r, c')"
        by (auto split: option.splits)
      show "suffix (remainder (fst y)) input"
      proof (cases "state r = Ok \<and> val r \<noteq> JUndefined")
        case True
        with body first have "loop parser (result @ [val r]) (remainder r) c' = Some y"
          by simp
        from IH [OF this] inv have "suffix (remainder (fst y)) (remainder r)" by simp
        moreover from inv first have "suffix (remainder r) input" by (rule remainder_suffixD)
        ultimately show ?thesis by (rule suffix_order.trans)
      next
        case False
        with body first show ?thesis by auto
      qed
    qed
  qed
  with assms(2) show ?thesis by simp
qed

lemma suffix_ZeroOrMore: "remainder_suffix P \<Longrightarrow> remainder_suffix (ZeroOrMore_parse P)"
  unfolding remainder_suffix_def [of "ZeroOrMore_parse P"] ZeroOrMore_parse_def
  using suffix_ZeroOrMore_loop by fastforce

lemma remainder_suffix_cong:
  "remainder_suffix P \<Longrightarrow> (\<And>s c. Q s c = P s c) \<Longrightarrow> remainder_suffix Q"
  by (simp add: remainder_suffix_def)

lemma suffix_Left:
  "remainder_suffix P1 \<Longrightarrow> remainder_suffix P2 \<Longrightarrow> remainder_suffix (Left_parse P1 P2)"
  by (rule remainder_suffix_cong [OF suffix_PMap [OF suffix_Pair]]) (simp_all add: Left_parse_def)

lemma suffix_Right:
  "remainder_suffix P1 \<Longrightarrow> remainder_suffix P2 \<Longrightarrow> remainder_suffix (Right_parse P1 P2)"
  by (rule remainder_suffix_cong [OF suffix_PMap [OF suffix_Pair]]) (simp_all add: Right_parse_def)

lemma suffix_OneOrMore: "remainder_suffix P \<Longrightarrow> remainder_suffix (OneOrMore_parse P)"
  by (rule remainder_suffix_cong [OF suffix_PMap [OF suffix_Pair [OF _ suffix_ZeroOrMore]]])
    (simp_all add: OneOrMore_parse_def)

lemma remainder_suffix_parse: "remainder_suffix (parse p)"
proof (induction p)
  case (Either ps)
  then show ?case by (auto intro!: suffix_Either)
next
  case (FixedEither ps)
  then show ?case by (auto intro!: suffix_FixedEither)
next
  case (Sequence ps)
  then show ?case by (auto intro!: suffix_Sequence)
next
  case (FlatMap p f)
  then show ?case by (auto intro!: suffix_FlatMap)
qed (simp_all add: suffix_Match suffix_Item suffix_Identifier suffix_Inspect suffix_Pair
      suffix_PMap suffix_Left suffix_Right suffix_ZeroOrMore suffix_OneOrMore suffix_Pred
      suffix_Optional)

text \<open>
  C7. For every parser instance built from the classes of the library and every input
  \<open>s\<close>, if \<open>parse(s)\<close> returns a Success record then its remainder is a suffix of
  \<open>s\<close>, and so is at most as long as \<open>s\<close>. (Every combinator preserves the stronger
  invariant \<open>remainder_suffix\<close>, which also covers the records with state Error.)
\<close>

theorem parse_success_remainder_suffix:
  assumes "parse p s c = Some (r, c')" and "state r = Ok"
  shows "suffix (remainder r) s \<and> length (remainder r) \<le> length s"
  using remainder_suffixD [OF remainder_suffix_parse assms(1)]
  by (simp add: suffix_length_le)

theorem parse_success_remainder_suffix_witness:
  "parse (PMap (PairP (Match ''Hello'') Item) (\<lambda>_. JStr '':)'')) ''Hello World'' [] =
     Some (\<lparr>state = Ok, remainder = ''World'', val = JStr '':)'', error = None\<rparr>, [])
   \<and> suffix ''World'' ''Hello World''
   \<and> length ''World'' \<le> length ''Hello World''"
proof -
  have run: "parse (PMap (PairP (Match ''Hello'') Item) (\<lambda>_. JStr '':)'')) ''Hello World'' [] =
     Some (\<lparr>state = Ok, remainder = ''World'', val = JStr '':)'', error = None\<rparr>, [])"
    by (simp add: PMap_parse_def Pair_parse_def Match_parse_def Item_parse_def)
  from parse_success_remainder_suffix [OF run] run show ?thesis by simp
qed

section \<open>The console does not influence the record\<close>

lemma console_independentD:
  "console_independent P \<Longrightarrow> P s c = Some (r, c') \<Longrightarrow> \<exists>d'. P s d = Some (r, d')"
  unfolding console_independent_def by blast

lemma console_independentI:
  "(\<And>s c r c' d. P s c = Some (r, c') \<Longrightarrow> \<exists>d'. P s d = Some (r, d')) \<Longrightarrow>
     console_independent P"
  by (auto simp: console_independent_def)

lemma independent_Match: "console_independent (Match_parse literal)"
  by (auto simp: console_independent_def Match_parse_def Let_def split: if_splits)

lemma independent_Item: "console_independent Item_parse"
  by (auto simp: console_independent_def Item_parse_def split: if_splits)

lemma independent_Identifier: "console_independent Identifier_parse"
  by (auto simp: console_independent_def Identifier_parse_def Let_def split: if_splits)

lemma independent_Inspect:
  assumes "console_independent P"
  shows "console_independent (Inspect_parse P)"
proof (rule console_independentI)
  fix s c r c' d
  assume "Inspect_parse P s c = Some (r, c')"
  then obtain c1 where "P s c = Some (r, c1)"
    by (auto simp: Inspect_parse_def split: option.splits)
  from console_independentD [OF assms this] obtain d1 where "P s d = Some (r, d1)" ..
  then show "\<exists>d'. Inspect_parse P s d = Some (r, d')"
    by (simp add: Inspect_parse_def)
qed

lemma independent_Pair:
  assumes "console_independent P1" and "console_independent P2"
  shows "console_independent (Pair_parse P1 P2)"
proof (rule console_independentI)
  fix s c r c' d
  assume ret: "Pair_parse P1 P2 s c = Some (r, c')"
  then obtain r1 c1 where p1: "P1 s c = Some (r1, c1)"
    by (auto simp: Pair_parse_def split: option.splits)
  from console_independentD [OF assms(1) this] obtain d1
    where q1: "P1 s d = Some (r1, d1)" ..
  show "\<exists>d'. Pair_parse P1 P2 s d = Some (r, d')"
  proof (cases "state r1 = Ok \<and> val r1 \<noteq> JUndefined")
    case False
    with ret p1 q1 show ?thesis by (auto simp: Pair_parse_def)
  next
    case True
    with ret p1 obtain r2 c2 where p2: "P2 (remainder r1) c1 = Some (r2, c2)"
      by (auto simp: Pair_parse_def split: option.splits)
    from console_independentD [OF assms(2) this] obtain d2
      where q2: "P2 (remainder r1) d1 = Some (r2, d2)" ..
    from ret p1 p2 q1 q2 True show ?thesis
      by (auto simp: Pair_parse_def split: if_splits)
  qed
qed

lemma independent_PMap:
  assumes "console_independent P"
  shows "console_independent (PMap_parse P g)"
proof (rule console_independentI)
  fix s c r c' d
  assume ret: "PMap_parse P g s c = Some (r, c')"
  then obtain r1 c1 where p1: "P s c = Some (r1, c1)"
    by (auto simp: PMap_parse_def split: option.splits)
  from console_independentD [OF assms this] obtain d1 where "P s d = Some (r1, d1)" ..
  with ret p1 show "\<exists>d'. PMap_parse P g s d = Some (r, d')"
    by (auto simp: PMap_parse_def split: if_splits)
qed

lemma independent_Pred:
  assumes "console_independent P"
  shows "console_independent (Pred_parse P g)"
proof (rule console_independentI)
  fix s c r c' d
  assume ret: "Pred_parse P g s c = Some (r, c')"
  then obtain r1 c1 where p1: "P s c = Some (r1, c1)"
    by (auto simp: Pred_parse_def split: option.splits)
  from console_independentD [OF assms this] obtain d1 where "P s d = Some (r1, d1)" ..
  with ret p1 show "\<exists>d'. Pred_parse P g s d = Some (r, d')"
    by (auto simp: Pred_parse_def split: if_splits)
qed

lemma independent_Optional:
  assumes "console_independent P"
  shows "console_independent (Optional_parse P)"
proof (rule console_independentI)
  fix s c r c' d
  assume ret: "Optional_parse P s c = Some (r, c')"
  then obtain r1 c1 where p1: "P s c = Some (r1, c1)"
    by (auto simp: Optional_parse_def split: option.splits)
  from console_independentD [OF assms this] obtain d1 where "P s d = Some (r1, d1)" ..
  with ret p1 show "\<exists>d'. Optional_parse P s d = Some (r, d')"
    by (auto simp: Optional_parse_def split: if_splits)
qed

lemma independent_FlatMap:
  assumes "console_independent P" and "\<And>v. console_independent (f v)"
  shows "console_independent (FlatMap_parse P f)"
proof (rule console_independentI)
  fix s c r c' d
  assume ret: "FlatMap_parse P f s c = Some (r, c')"
  then obtain r1 c1 where p1: "P s c = Some (r1, c1)"
    by (auto simp: FlatMap_parse_def split: option.splits)
  from console_independentD [OF assms(1) this] obtain d1
    where q1: "P s d = Some (r1, d1)" ..
  show "\<exists>d'. FlatMap_parse P f s d = Some (r, d')"
  proof (cases "state r1 = Ok \<and> val r1 \<noteq> JUndefined")
    case False
    with ret p1 q1 show ?thesis by (auto simp: FlatMap_parse_def)
  next
    case True
    with ret p1 have "f (val r1) (remainder r1) c1 = Some (r, c')"
      by (simp add: FlatMap_parse_def)
    from console_independentD [OF assms(2) this] obtain d2
      where "f (val r1) (remainder r1) d1 = Some (r, d2)" ..
    with q1 True show ?thesis by (simp add: FlatMap_parse_def)
  qed
qed

lemma Either_independent_step:
  assumes "\<And>P. P \<in> set Ps \<Longrightarrow> console_independent P"
    and "Either_parse Ps s c = Some (r, c')"
  shows "\<exists>d'. Either_parse Ps s d = Some (r, d')"
  using assms
proof (induction Ps arbitrary: c d)
  case Nil
  then show ?case by simp
next
  case (Cons P Ps)
  from Cons.prems(2) obtain r1 c1 where p1: "P s c = Some (r1, c1)"
    by (auto split: option.splits)
  have "console_independent P" using Cons.prems(1) by simp
  from console_independentD [OF this p1] obtain d1 where q1: "P s d = Some (r1, d1)" ..
  show ?case
  proof (cases "state r1 = Ok \<and> val r1 \<noteq> JUndefined")
    case True
    with Cons.prems(2) p1 q1 show ?thesis by auto
  next
    case False
    with Cons.prems(2) p1 have "Either_parse Ps s c1 = Some (r, c')" by simp
    from Cons.IH [OF _ this, of d1] Cons.prems(1) obtain d'
      where "Either_parse Ps s d1 = Some (r, d')" by auto
    with q1 False show ?thesis by auto
  qed
qed

lemma independent_Either:
  "(\<And>P. P \<in> set Ps \<Longrightarrow> console_independent P) \<Longrightarrow> console_independent (Either_parse Ps)"
  by (rule console_independentI) (rule Either_independent_step)

lemma FixedEither_independent_step:
  assumes "\<And>P. P \<in> set Ps \<Longrightarrow> console_independent P"
    and "FixedEither_parse Ps s c = Some (r, c')"
  shows "\<exists>d'. FixedEither_parse Ps s d = Some (r, d')"
  using assms
proof (induction Ps arbitrary: c d)
  case Nil
  then show ?case by simp
next
  case (Cons P Ps)
  from Cons.prems(2) obtain r1 c1 where p1: "P s c = Some (r1, c1)"
    by (auto split: option.splits)
  have "console_independent P" using Cons.prems(1) by simp
  from console_independentD [OF this p1] obtain d1 where q1: "P s d = Some (r1, d1)" ..
  show ?case
  proof (cases "state r1 = Ok \<and> val r1 \<noteq> JUndefined")
    case True
    with Cons.prems(2) p1 q1 show ?thesis by auto
  next
    case False
    with Cons.prems(2) p1 have "FixedEither_parse Ps s c1 = Some (r, c')" by simp
    from Cons.IH [OF _ this, of d1] Cons.prems(1) obtain d'
      where "FixedEither_parse Ps s d1 = Some (r, d')" by auto
    with q1 False show ?thesis by auto
  qed
qed

lemma independent_FixedEither:
  "(\<And>P. P \<in> set Ps \<Longrightarrow> console_independent P) \<Longrightarrow>
     console_independent (FixedEither_parse Ps)"
  by (rule console_independentI) (rule FixedEither_independent_step)

lemma Sequence_independent_step:
  assumes "\<And>P. P \<in> set Ps \<Longrightarrow> console_independent P"
    and "Sequence_parse Ps s c = Some (r, c')"
  shows "\<exists>d'. Sequence_parse Ps s d = Some (r, d')"
  using assms
proof (induction Ps arbitrary: s c d)
  case Nil
  then show ?case by simp
next
  case (Cons P Ps)
  from Cons.prems(2) obtain r1 c1 where p1: "P s c = Some (r1, c1)"
    by (auto split: option.splits)
  have "console_independent P" using Cons.prems(1) by simp
  from console_independentD [OF this p1] obtain d1 where q1: "P s d = Some (r1, d1)" ..
  show ?case
  proof (cases "state r1 = Error")
    case True
    with Cons.prems(2) p1 q1 show ?thesis by auto
  next
    case False
    with Cons.prems(2) p1 have "Sequence_parse Ps (remainder r1) c1 = Some (r, c')" by simp
    from Cons.IH [OF _ this, of d1] Cons.prems(1) obtain d'
      where "Sequence_parse Ps (remainder r1) d1 = Some (r, d')" by auto
    with q1 False show ?thesis by auto
  qed
qed

lemma independent_Sequence:
  "(\<And>P. P \<in> set Ps \<Longrightarrow> console_independent P) \<Longrightarrow>
     console_independent (Sequence_parse Ps)"
  by (rule console_independentI) (rule Sequence_independent_step)

lemma ZeroOrMore_loop_independent:
  assumes "ZeroOrMore_loop P acc s c = Some y" and "console_independent P"
  shows "\<exists>d'. ZeroOrMore_loop P acc s d = Some (fst y, d')"
proof -
  have "console_independent P \<longrightarrow> (\<forall>d. \<exists>d'. ZeroOrMore_loop P acc s d = Some (fst y, d'))"
  proof (rule ZeroOrMore_loop.raw_induct
      [where P = "\<lambda>parser result input _ y. console_independent parser \<longrightarrow>
          (\<forall>d. \<exists>d'. ZeroOrMore_loop parser result input d = Some (fst y, d'))",
        OF _ assms(1)])
    fix loop parser result input c y
    assume IH: "\<And>parser result input c y.
        loop parser result input c = Some y \<Longrightarrow>
        console_independent parser \<longrightarrow>
          (\<forall>d. \<exists>d'. ZeroOrMore_loop parser result input d = Some (fst y, d'))"
      and body: "(case parser input c of
          None \<Rightarrow> None
        | Some (r, c') \<Rightarrow>
            if state r = Ok \<and> val r \<noteq> JUndefined
            then loop parser (result @ [val r]) (remainder r) c'
            else Some (\<lparr>state = Ok, remainder = input, val = JArr result,
                        error = None\<rparr>, c')) = Some y"
    show "console_independent parser \<longrightarrow>
          (\<forall>d. \<exists>d'. ZeroOrMore_loop parser result input d = Some (fst y, d'))"
    proof (intro impI allI)
      fix d
      assume ind: "console_independent parser"
      from body obtain r c1 where p1: "parser input c = Some (r, c1)"
        by (auto split: option.splits)
      from console_independentD [OF ind p1] obtain d1
        where q1: "parser input d = Some (r, d1)" ..
      show "\<exists>d'. ZeroOrMore_loop parser result input d = Some (fst y, d')"
      proof (cases "state r = Ok \<and> val r \<noteq> JUndefined")
        case True
        with body p1 have "loop parser (result @ [val r]) (remainder r) c1 = Some y"
          by simp
        from IH [OF this] ind obtain d' where
          "ZeroOrMore_loop parser (result @ [val r]) (remainder r) d1 = Some (fst y, d')"
          by blast
        with q1 True show ?thesis
          by (simp add: ZeroOrMore_loop.simps [of parser result input d])
      next
        case False
        with body p1 q1 show ?thesis
          by (auto simp: ZeroOrMore_loop.simps [of parser result input d])
      qed
    qed
  qed
  with assms(2) show ?thesis by blast
qed

lemma independent_ZeroOrMore:
  assumes "console_independent P"
  shows "console_independent (ZeroOrMore_parse P)"
proof (rule console_independentI)
  fix s c r c' d
  assume "ZeroOrMore_parse P s c = Some (r, c')"
  then have "ZeroOrMore_loop P [] s c = Some (r, c')"
    by (simp add: ZeroOrMore_parse_def)
  from ZeroOrMore_loop_independent [OF this assms, of d]
  show "\<exists>d'. ZeroOrMore_parse P s d = Some (r, d')"
    by (simp add: ZeroOrMore_parse_def)
qed

lemma console_independent_cong:
  "console_independent P \<Longrightarrow> (\<And>s c. Q s c = P s c) \<Longrightarrow> console_independent Q"
  by (simp add: console_independent_def)

lemma independent_Left:
  "console_independent P1 \<Longrightarrow> console_independent P2 \<Longrightarrow>
     console_independent (Left_parse P1 P2)"
  by (rule console_independent_cong [OF independent_PMap [OF independent_Pair]])
    (simp_all add: Left_parse_def)

lemma independent_Right:
  "console_independent P1 \<Longrightarrow> console_independent P2 \<Longrightarrow>
     console_independent (Right_parse P1 P2)"
  by (rule console_independent_cong [OF independent_PMap [OF independent_Pair]])
    (simp_all add: Right_parse_def)

lemma independent_OneOrMore:
  "console_independent P \<Longrightarrow> console_independent (OneOrMore_parse P)"
  by (rule console_independent_cong
        [OF independent_PMap [OF independent_Pair [OF _ independent_ZeroOrMore]]])
    (simp_all add: OneOrMore_parse_def)

lemma console_independent_parse: "console_independent (parse p)"
proof (induction p)
  case (Either ps)
  then show ?case by (auto intro!: independent_Either)
next
  case (FixedEither ps)
  then show ?case by (auto intro!: independent_FixedEither)
next
  case (Sequence ps)
  then show ?case by (auto intro!: independent_Sequence)
next
  case (FlatMap p f)
  then show ?case by (auto intro!: independent_FlatMap)
qed (simp_all add: independent_Match independent_Item independent_Identifier
      independent_Inspect independent_Pair independent_PMap independent_Left
      independent_Right independent_ZeroOrMore independent_OneOrMore independent_Pred
      independent_Optional)

text \<open>
  C8. For every parser instance built from the classes of the library, with functions
  for map, pred and flat_map that are pure, and every input \<open>s\<close>: when an invocation
  of \<open>parse(s)\<close> returns a record, a second invocation on the same instance returns the
  same record. An instance is a value that \<open>parse\<close> does not change, and the console,
  the only state that \<open>parse\<close> writes, is never read: the record is the same from the
  console left by the first invocation, and from any other console.
\<close>

theorem parse_twice_same_record:
  assumes "parse p s c = Some (r, c')"
  shows "(\<exists>c''. parse p s c' = Some (r, c'')) \<and> (\<forall>d. \<exists>d'. parse p s d = Some (r, d'))"
  using console_independentD [OF console_independent_parse assms] by blast

theorem parse_twice_same_record_witness:
  "parse (Inspect (PMap (PairP (Match ''Hello'') Item) (\<lambda>_. JStr '':)''))) ''Hello World'' [] =
     Some (\<lparr>state = Ok, remainder = ''World'', val = JStr '':)'', error = None\<rparr>,
           [\<lparr>state = Ok, remainder = ''World'', val = JStr '':)'', error = None\<rparr>])
   \<and> parse (Inspect (PMap (PairP (Match ''Hello'') Item) (\<lambda>_. JStr '':)''))) ''Hello World''
       [\<lparr>state = Ok, remainder = ''World'', val = JStr '':)'', error = None\<rparr>] =
     Some (\<lparr>state = Ok, remainder = ''World'', val = JStr '':)'', error = None\<rparr>,
           [\<lparr>state = Ok, remainder = ''World'', val = JStr '':)'', error = None\<rparr>,
            \<lparr>state = Ok, remainder = ''World'', val = JStr '':)'', error = None\<rparr>])
   \<and> (\<forall>d. \<exists>d'.
         parse (Inspect (PMap (PairP (Match ''Hello'') Item) (\<lambda>_. JStr '':)''))) ''Hello World'' d =
           Some (\<lparr>state = Ok, remainder = ''World'', val = JStr '':)'', error = None\<rparr>, d'))"
proof -
  have run: "parse (Inspect (PMap (PairP (Match ''Hello'') Item) (\<lambda>_. JStr '':)'')))
      ''Hello World'' [] =
     Some (\<lparr>state = Ok, remainder = ''World'', val = JStr '':)'', error = None\<rparr>,
           [\<lparr>state = Ok, remainder = ''World'', val = JStr '':)'', error = None\<rparr>])"
    by (simp add: Inspect_parse_def PMap_parse_def Pair_parse_def Match_parse_def
        Item_parse_def)
  have again: "parse (Inspect (PMap (PairP (Match ''Hello'') Item) (\<lambda>_. JStr '':)'')))
      ''Hello World'' [\<lparr>state = Ok, remainder = ''World'', val = JStr '':)'', error = None\<rparr>] =
     Some (\<lparr>state = Ok, remainder = ''World'', val = JStr '':)'', error = None\<rparr>,
           [\<lparr>state = Ok, remainder = ''World'', val = JStr '':)'', error = None\<rparr>,
            \<lparr>state = Ok, remainder = ''World'', val = JStr '':)'', error = None\<rparr>])"
    by (simp add: Inspect_parse_def PMap_parse_def Pair_parse_def Match_parse_def
        Item_parse_def)
  from parse_twice_same_record [OF run] run again show ?thesis by blast
qed

section \<open>Records with state Ok and no value\<close>

theorem FlatMap_Ok_undefined_counterexample:
  "parse (Pred Item (\<lambda>_. False)) ''ab'' [] =
      Some (\<lparr>state = Ok, remainder = ''ab'', val = JUndefined,
             error = Some ''Failed predicate''\<rparr>, [])
   \<and> parse (FlatMap (Pred Item (\<lambda>_. False)) (\<lambda>_. Item)) ''ab'' [] =
      Some (\<lparr>state = Ok, remainder = ''ab'', val = JUndefined,
             error = Some ''Failed predicate''\<rparr>, [])
   \<and> Ok \<noteq> Error"
  by (simp add: FlatMap_parse_def Pred_parse_def Item_parse_def)

text \<open>
  C10, as amended. Every combinator that inspects the record of a sub-parser treats a
  record with state Ok and an undefined value as not successful: Either and FixedEither
  skip the branch and try the next one, Pair returns Failure, ZeroOrMore stops
  iterating, and PMap, Pred and FlatMap do not call their function. FlatMap, like PMap,
  then passes the state of the record through, so what it returns has state Ok and no
  value.
\<close>

theorem Ok_undefined_not_successful:
  assumes "P s c = Some (r, c')" and "state r = Ok" and "val r = JUndefined"
  shows "Either_parse (P # Ps) s c = Either_parse Ps s c'
       \<and> FixedEither_parse (P # Ps) s c = FixedEither_parse Ps s c'
       \<and> Pair_parse P Q s c =
           Some (\<lparr>state = Error, remainder = s, val = JUndefined, error = error r\<rparr>, c')
       \<and> ZeroOrMore_loop P acc s c =
           Some (\<lparr>state = Ok, remainder = s, val = JArr acc, error = None\<rparr>, c')
       \<and> PMap_parse P g s c =
           Some (\<lparr>state = Ok, remainder = remainder r, val = JUndefined, error = error r\<rparr>, c')
       \<and> Pred_parse P h s c =
           Some (\<lparr>state = Ok, remainder = s, val = JUndefined,
                  error = Some ''Failed predicate''\<rparr>, c')
       \<and> FlatMap_parse P f s c =
           Some (\<lparr>state = Ok, remainder = remainder r, val = JUndefined, error = error r\<rparr>, c')"
  using assms
  by (simp add: Pair_parse_def PMap_parse_def Pred_parse_def FlatMap_parse_def
      ZeroOrMore_loop.simps [of P acc s c])

theorem Ok_undefined_not_successful_witness:
  "Pred_parse Item_parse (\<lambda>_. False) ''ab'' [] =
      Some (\<lparr>state = Ok, remainder = ''ab'', val = JUndefined,
             error = Some ''Failed predicate''\<rparr>, [])
   \<and> Either_parse [Pred_parse Item_parse (\<lambda>_. False), Item_parse] ''ab'' [] =
      Some (\<lparr>state = Ok, remainder = ''b'', val = JStr ''a'', error = None\<rparr>, [])
   \<and> FixedEither_parse [Pred_parse Item_parse (\<lambda>_. False), Item_parse] ''ab'' [] =
      Some (\<lparr>state = Ok, remainder = ''b'', val = JStr ''a'', error = None\<rparr>, [])
   \<and> Pair_parse (Pred_parse Item_parse (\<lambda>_. False)) Item_parse ''ab'' [] =
      Some (\<lparr>state = Error, remainder = ''ab'', val = JUndefined,
             error = Some ''Failed predicate''\<rparr>, [])
   \<and> ZeroOrMore_loop (Pred_parse Item_parse (\<lambda>_. False)) [] ''ab'' [] =
      Some (\<lparr>state = Ok, remainder = ''ab'', val = JArr [], error = None\<rparr>, [])
   \<and> PMap_parse (Pred_parse Item_parse (\<lambda>_. False)) (\<lambda>_. JNull) ''ab'' [] =
      Some (\<lparr>state = Ok, remainder = ''ab'', val = JUndefined,
             error = Some ''Failed predicate''\<rparr>, [])
   \<and> FlatMap_parse (Pred_parse Item_parse (\<lambda>_. False)) (\<lambda>_. Item_parse) ''ab'' [] =
      Some (\<lparr>state = Ok, remainder = ''ab'', val = JUndefined,
             error = Some ''Failed predicate''\<rparr>, [])"
proof -
  have p: "Pred_parse Item_parse (\<lambda>_. False) ''ab'' [] =
      Some (\<lparr>state = Ok, remainder = ''ab'', val = JUndefined,
             error = Some ''Failed predicate''\<rparr>, [])"
    by (simp add: Pred_parse_def Item_parse_def)
  have i: "Item_parse ''ab'' [] =
      Some (\<lparr>state = Ok, remainder = ''b'', val = JStr ''a'', error = None\<rparr>, [])"
    by (simp add: Item_parse_def)
  from Ok_undefined_not_successful [of "Pred_parse Item_parse (\<lambda>_. False)" "''ab''" "[]"
      "\<lparr>state = Ok, remainder = ''ab'', val = JUndefined,
         error = Some ''Failed predicate''\<rparr>" "[]"
      "[Item_parse]" Item_parse "[]" "\<lambda>_. JNull" "\<lambda>_. False" "\<lambda>_. Item_parse"] p i
  show ?thesis by simp
qed

end
